theory Spec2Isabelle
  imports
    Main
    "HOL-Library.AList"
    "HOL-Library.Multiset"
    "HOL-Library.Sublist"
    "HOL-Library.Char_ord"
    "HOL-Library.List_Lexorder"
begin

section \<open>Python values\<close>

text \<open>
  The suggestion engine of \<^verbatim>\<open>backend/ai_pipeline.py\<close> works on plain Python
  dictionaries typed \<^verbatim>\<open>Dict[str, Any]\<close>. The values modelled here are \<^verbatim>\<open>None\<close>,
  booleans, (unbounded) integers, strings and dictionaries with string keys, nested to any
  depth. Floats and sequences are outside this fragment. A dictionary is an association
  list in insertion order; a Python dictionary has no repeated key, a lookup reads the first
  entry of a key.
\<close>

datatype pyval =
    PNone
  | PBool bool
  | PInt int
  | PStr string
  | PDict "(string \<times> pyval) list"

type_synonym pydict = "(string \<times> pyval) list"

text \<open>The exceptions (all subclasses of \<^verbatim>\<open>Exception\<close>) the two methods can meet.\<close>

datatype exn = KeyError | TypeError | AttributeError

text \<open>
  Python's \<^verbatim>\<open>==\<close> on these values. \<^verbatim>\<open>bool\<close> is a subclass of \<^verbatim>\<open>int\<close>: \<^verbatim>\<open>True == 1\<close> and
  \<^verbatim>\<open>False == 0\<close>. Two dictionaries are equal when they have the same number of entries and
  every key of the first is in the second with an equal value. Values of unrelated types
  are unequal.
\<close>

fun py_eq :: "pyval \<Rightarrow> pyval \<Rightarrow> bool" where
  "py_eq PNone PNone = True"
| "py_eq (PBool a) (PBool b) = (a = b)"
| "py_eq (PBool a) (PInt n) = ((if a then 1 else 0) = n)"
| "py_eq (PInt m) (PBool b) = (m = (if b then 1 else 0))"
| "py_eq (PInt m) (PInt n) = (m = n)"
| "py_eq (PStr s) (PStr t) = (s = t)"
| "py_eq (PDict d) (PDict e) =
     (length d = length e \<and>
      list_all (\<lambda>(k, v). case map_of e k of None \<Rightarrow> False | Some w \<Rightarrow> py_eq v w) d)"
| "py_eq _ _ = False"

text \<open>\<^verbatim>\<open>a != b\<close> on these values is the negation of \<^verbatim>\<open>a == b\<close>.\<close>

definition py_ne :: "pyval \<Rightarrow> pyval \<Rightarrow> bool" where
  "py_ne a b = (\<not> py_eq a b)"

text \<open>\<^verbatim>\<open>isinstance(v, dict)\<close>, and the entries \<^verbatim>\<open>v.items()\<close> of a dictionary.\<close>

fun isinstance_dict :: "pyval \<Rightarrow> bool" where
  "isinstance_dict (PDict d) = True"
| "isinstance_dict _ = False"

fun items :: "pyval \<Rightarrow> pydict" where
  "items (PDict d) = d"
| "items _ = []"

text \<open>\<^verbatim>\<open>d.get(key, default)\<close>, and the subscript \<^verbatim>\<open>d[key]\<close>, which raises \<^verbatim>\<open>KeyError\<close>.\<close>

definition dict_get :: "(string \<times> 'v) list \<Rightarrow> string \<Rightarrow> 'v \<Rightarrow> 'v" where
  "dict_get d key dflt = (case map_of d key of None \<Rightarrow> dflt | Some v \<Rightarrow> v)"

definition subscript :: "pydict \<Rightarrow> string \<Rightarrow> exn + pyval" where
  "subscript d key = (case map_of d key of None \<Rightarrow> Inl KeyError | Some v \<Rightarrow> Inr v)"

text \<open>
  A \<^verbatim>\<open>try: body except Exception as e: handler\<close> block whose two branches both return.
\<close>

definition try_except :: "exn + 'a \<Rightarrow> (exn \<Rightarrow> exn + 'a) \<Rightarrow> exn + 'a" where
  "try_except body handler = (case body of Inl e \<Rightarrow> handler e | Inr v \<Rightarrow> Inr v)"

section \<open>Sorting by a key\<close>

text \<open>
  \<^verbatim>\<open>xs.sort(key=f)\<close> first calls \<open>f\<close> on every element, in order, and an exception of
  \<open>f\<close> leaves the sort at once. Lists of fewer than two elements are then returned without
  any comparison. Longer lists are sorted with \<^verbatim>\<open><\<close> on the keys, and the sort is stable.
  On the values of this fragment \<^verbatim>\<open><\<close> is defined between two numbers (booleans count as
  0 and 1) and between two strings (lexicographic on the characters); every other pair,
  \<^verbatim>\<open>None\<close> or a dictionary on either side included, raises \<^verbatim>\<open>TypeError\<close>. A comparison
  sort of two or more keys compares every key with another one and cannot order numbers
  against strings without comparing across, so it raises exactly when the keys are
  neither all numbers nor all strings.
\<close>

fun is_number :: "pyval \<Rightarrow> bool" where
  "is_number (PBool b) = True"
| "is_number (PInt n) = True"
| "is_number _ = False"

fun is_str :: "pyval \<Rightarrow> bool" where
  "is_str (PStr s) = True"
| "is_str _ = False"

fun int_of :: "pyval \<Rightarrow> int" where
  "int_of (PBool b) = (if b then 1 else 0)"
| "int_of (PInt n) = n"
| "int_of _ = 0"

fun str_of :: "pyval \<Rightarrow> string" where
  "str_of (PStr s) = s"
| "str_of _ = []"

fun sort_keys :: "('a \<Rightarrow> exn + pyval) \<Rightarrow> 'a list \<Rightarrow> exn + pyval list" where
  "sort_keys key [] = Inr []"
| "sort_keys key (x # xs) =
     (case key x of
        Inl e \<Rightarrow> Inl e
      | Inr k \<Rightarrow> (case sort_keys key xs of Inl e \<Rightarrow> Inl e | Inr ks \<Rightarrow> Inr (k # ks)))"

definition key_value :: "('a \<Rightarrow> exn + pyval) \<Rightarrow> 'a \<Rightarrow> pyval" where
  "key_value key x = (case key x of Inl e \<Rightarrow> PNone | Inr k \<Rightarrow> k)"

definition list_sort :: "('a \<Rightarrow> exn + pyval) \<Rightarrow> 'a list \<Rightarrow> exn + 'a list" where
  "list_sort key xs =
     (case sort_keys key xs of
        Inl e \<Rightarrow> Inl e
      | Inr ks \<Rightarrow>
          if length xs < 2 then Inr xs
          else if list_all is_number ks then Inr (sort_key (\<lambda>x. int_of (key_value key x)) xs)
          else if list_all is_str ks then Inr (sort_key (\<lambda>x. str_of (key_value key x)) xs)
          else Inl TypeError)"

section \<open>The suggestion pipeline\<close>

text \<open>
  \<^verbatim>\<open>AISuggestionPipeline\<close>: the constructor stores the module-level table
  \<^verbatim>\<open>SUGGESTIONS\<close> in \<^verbatim>\<open>self.suggestions\<close>. The logger only writes diagnostics and is left out.
\<close>

record AISuggestionPipeline =
  suggestions :: "(string \<times> pydict list) list"

text \<open>
  \<^verbatim>\<open>_check_conditions\<close>. The inner loop runs over the entries of a nested expectation,
  the outer loop over the entries of \<^verbatim>\<open>conditions\<close>; each returns \<open>False\<close> where the source
  executes \<^verbatim>\<open>return False\<close> and \<open>True\<close> when the loop runs to its end.
\<close>

fun subkey_loop :: "pydict \<Rightarrow> pydict \<Rightarrow> bool" where
  "subkey_loop [] state_key = True"
| "subkey_loop ((subkey, subval) # rest) state_key =
     (case map_of state_key subkey of
        None \<Rightarrow> False
      | Some w \<Rightarrow> if py_ne w subval then False else subkey_loop rest state_key)"

fun conditions_loop :: "pydict \<Rightarrow> pydict \<Rightarrow> bool" where
  "conditions_loop [] state = True"
| "conditions_loop ((key, value) # rest) state =
     (case map_of state key of
        None \<Rightarrow> False
      | Some state_key \<Rightarrow>
          if isinstance_dict value \<and> isinstance_dict state_key then
            (if subkey_loop (items value) (items state_key)
             then conditions_loop rest state else False)
          else
            (if py_ne state_key value then False else conditions_loop rest state))"

text \<open>
  The body of the \<^verbatim>\<open>try\<close>: \<^verbatim>\<open>conditions.items()\<close> raises \<^verbatim>\<open>AttributeError\<close> when
  \<^verbatim>\<open>conditions\<close> is not a dictionary.
\<close>

definition check_conditions_body :: "pydict \<Rightarrow> pydict \<Rightarrow> exn + bool" where
  "check_conditions_body suggestion state =
     (let conditions = dict_get suggestion ''conditions'' (PDict [])
      in if isinstance_dict conditions
         then Inr (conditions_loop (items conditions) state)
         else Inl AttributeError)"

definition check_conditions :: "pydict \<Rightarrow> pydict \<Rightarrow> exn + bool" where
  "check_conditions suggestion state =
     try_except (check_conditions_body suggestion state) (\<lambda>e. Inr False)"

text \<open>
  \<^verbatim>\<open>get_suggestions\<close>. The filtering loop appends every suggestion whose conditions hold;
  an exception of \<^verbatim>\<open>_check_conditions\<close> would leave the loop.
\<close>

fun active_loop :: "pydict list \<Rightarrow> pydict \<Rightarrow> pydict list \<Rightarrow> exn + pydict list" where
  "active_loop [] state active_suggestions = Inr active_suggestions"
| "active_loop (suggestion # rest) state active_suggestions =
     (case check_conditions suggestion state of
        Inl e \<Rightarrow> Inl e
      | Inr b \<Rightarrow>
          active_loop rest state
            (if b then active_suggestions @ [suggestion] else active_suggestions))"

definition get_suggestions_body ::
  "AISuggestionPipeline \<Rightarrow> pydict \<Rightarrow> string \<Rightarrow> exn + pydict list" where
  "get_suggestions_body self state game =
     (let game_suggestions = dict_get (suggestions self) game []
      in case active_loop game_suggestions state [] of
           Inl e \<Rightarrow> Inl e
         | Inr active_suggestions \<Rightarrow>
             (case list_sort (\<lambda>x. subscript x ''priority'') active_suggestions of
                Inl e \<Rightarrow> Inl e
              | Inr sorted_suggestions \<Rightarrow> Inr (take 3 sorted_suggestions)))"

definition get_suggestions ::
  "AISuggestionPipeline \<Rightarrow> pydict \<Rightarrow> string \<Rightarrow> exn + pydict list" where
  "get_suggestions self state game =
     try_except (get_suggestions_body self state game) (\<lambda>e. Inr [])"

text \<open>
  A call of \<^verbatim>\<open>get_suggestions\<close>: the parameter \<^verbatim>\<open>game\<close> has the default \<^verbatim>\<open>'valorant'\<close>,
  taken when the caller passes no argument (\<open>None\<close> here).
\<close>

definition get_suggestions_call ::
  "AISuggestionPipeline \<Rightarrow> pydict \<Rightarrow> string option \<Rightarrow> exn + pydict list" where
  "get_suggestions_call self state game_arg =
     get_suggestions self state (case game_arg of None \<Rightarrow> ''valorant'' | Some game \<Rightarrow> game)"

section \<open>The table of suggestions\<close>

text \<open>
  \<^verbatim>\<open>SUGGESTIONS\<close> of \<^verbatim>\<open>backend/suggestion_models.py\<close>. Every entry is a dictionary
  literal with the keys \<^verbatim>\<open>id\<close>, \<^verbatim>\<open>text\<close>, \<^verbatim>\<open>priority\<close> and \<^verbatim>\<open>conditions\<close>, in this order.
  The entries are named after their \<^verbatim>\<open>id\<close> (with the game in front where two games share
  one).
\<close>

definition suggestion :: "string \<Rightarrow> string \<Rightarrow> int \<Rightarrow> pydict \<Rightarrow> pydict" where
  "suggestion ident txt prio conds =
     [(''id'', PStr ident), (''text'', PStr txt), (''priority'', PInt prio),
      (''conditions'', PDict conds)]"

subsection \<open>The entries of \<^verbatim>\<open>'valorant'\<close>\<close>

definition combat_utility :: pydict where
  "combat_utility =
     suggestion ''combat_utility'' ''Use utility to gain advantage in combat'' 1
     [(''combat'', PBool True), (''utility_available'', PBool True),
      (''close_range'', PBool True)]"

definition exposed_warning :: pydict where
  "exposed_warning =
     suggestion ''exposed_warning'' ''You are exposed! Find cover quickly'' 2
     [(''exposed'', PBool True)]"

definition save_money :: pydict where
  "save_money =
     suggestion ''save_money'' ''Consider saving money for next round'' 3
     [(''team_money'', PStr ''low''), (''round_time'', PStr ''late'')]"

definition use_ultimate :: pydict where
  "use_ultimate =
     suggestion ''use_ultimate'' ''Use your ultimate ability to gain an advantage'' 1
     [(''ultimate_available'', PBool True), (''combat'', PBool True)]"

definition rotate_site :: pydict where
  "rotate_site =
     suggestion ''rotate_site'' ''Rotate to another site to surprise the enemy'' 2
     [(''site_control'', PBool False), (''enemy_presence'', PBool True)]"

definition plant_spike :: pydict where
  "plant_spike =
     suggestion ''plant_spike'' ''Plant the spike to secure the round'' 1
     [(''site_control'', PBool True), (''spike_available'', PBool True),
      (''safe_to_plant'', PBool True)]"

definition defend_spike :: pydict where
  "defend_spike =
     suggestion ''defend_spike'' ''Defend the spike to win the round'' 1
     [(''spike_planted'', PBool True), (''enemy_presence'', PBool True)]"

definition request_smoke :: pydict where
  "request_smoke =
     suggestion ''request_smoke'' ''Request a smoke from a teammate to block vision'' 2
     [(''need_smoke'', PBool True), (''teammate_with_smoke'', PBool True)]"

definition request_flash :: pydict where
  "request_flash =
     suggestion ''request_flash'' ''Request a flash from a teammate to blind the enemy'' 2
     [(''need_flash'', PBool True), (''teammate_with_flash'', PBool True)]"

definition request_healing :: pydict where
  "request_healing =
     suggestion ''request_healing'' ''Request healing from a teammate to stay alive'' 1
     [(''low_health'', PBool True), (''teammate_with_healing'', PBool True)]"

definition check_corners :: pydict where
  "check_corners =
     suggestion ''check_corners'' ''Check your corners before entering a new area'' 3
     [(''entering_new_area'', PBool True)]"

definition communicate_team :: pydict where
  "communicate_team =
     suggestion ''communicate_team''
       ''Communicate with your team to coordinate attacks and defenses'' 2
     [(''need_coordination'', PBool True)]"

definition use_ability_q :: pydict where
  "use_ability_q =
     suggestion ''use_ability_q'' ''Use your Q ability for tactical advantage'' 1
     [(''abilities'', PDict [(''Q'', PBool True)]), (''combat'', PBool True)]"

definition use_ability_e :: pydict where
  "use_ability_e =
     suggestion ''use_ability_e'' ''Use your E ability to reposition or gather info'' 2
     [(''abilities'', PDict [(''E'', PBool True)]), (''combat'', PBool True)]"

definition switch_to_rifle :: pydict where
  "switch_to_rifle =
     suggestion ''switch_to_rifle'' ''Switch to a rifle for better firepower'' 2
     [(''equipped_gun'', PStr ''Classic''), (''combat'', PBool True)]"

definition default_tip :: pydict where
  "default_tip =
     suggestion ''default_tip'' ''Play smart and communicate with your team!'' 99
     []"

subsection \<open>The entries of \<^verbatim>\<open>'csgo'\<close>\<close>

definition csgo_combat_utility :: pydict where
  "csgo_combat_utility =
     suggestion ''combat_utility'' ''Use utility to gain advantage in combat'' 1
     [(''combat'', PBool True), (''utility_available'', PBool True)]"

definition csgo_save_money :: pydict where
  "csgo_save_money =
     suggestion ''save_money'' ''Consider saving money for next round'' 2
     [(''team_money'', PStr ''low''), (''round_time'', PStr ''late'')]"

subsection \<open>The entries of \<^verbatim>\<open>'dota2'\<close>\<close>

definition team_fight :: pydict where
  "team_fight =
     suggestion ''team_fight'' ''Team fight opportunity! Group up with allies'' 1
     [(''team_alive'', PInt 4), (''combat'', PBool True)]"

definition farm_gold :: pydict where
  "farm_gold =
     suggestion ''farm_gold'' ''Focus on farming to increase gold'' 2
     [(''gold'', PStr ''low''), (''combat'', PBool False)]"

subsection \<open>The table\<close>

definition valorant_suggestions :: "pydict list" where
  "valorant_suggestions =
    [combat_utility, exposed_warning, save_money, use_ultimate, rotate_site, plant_spike,
     defend_spike, request_smoke, request_flash, request_healing, check_corners,
     communicate_team, use_ability_q, use_ability_e, switch_to_rifle, default_tip]"

definition csgo_suggestions :: "pydict list" where
  "csgo_suggestions = [csgo_combat_utility, csgo_save_money]"

definition dota2_suggestions :: "pydict list" where
  "dota2_suggestions = [team_fight, farm_gold]"

definition SUGGESTIONS :: "(string \<times> pydict list) list" where
  "SUGGESTIONS =
    [(''valorant'', valorant_suggestions),
     (''csgo'', csgo_suggestions),
     (''dota2'', dota2_suggestions)]"

definition init :: AISuggestionPipeline where
  "init = \<lparr>suggestions = SUGGESTIONS\<rparr>"

section \<open>Vocabulary of the properties\<close>

text \<open>\<^verbatim>\<open>state[key] = value\<close>: an existing entry is overwritten in place, a new one is appended.\<close>

definition setitem :: "pydict \<Rightarrow> string \<Rightarrow> pyval \<Rightarrow> pydict" where
  "setitem d key v = AList.update key v d"

text \<open>The rules of a game, as \<^verbatim>\<open>get_suggestions\<close> reads them.\<close>

definition rules_for :: "AISuggestionPipeline \<Rightarrow> string \<Rightarrow> pydict list" where
  "rules_for self game = dict_get (suggestions self) game []"

text \<open>The keys named by the conditions of a rule.\<close>

definition condition_keys :: "pydict \<Rightarrow> string list" where
  "condition_keys r = map fst (items (dict_get r ''conditions'' (PDict [])))"

text \<open>A rule matches a state when \<^verbatim>\<open>_check_conditions\<close> returns \<open>True\<close>.\<close>

definition matches :: "pydict \<Rightarrow> pydict \<Rightarrow> bool" where
  "matches r state = (check_conditions r state = Inr True)"

text \<open>The matching rules of a game, in the order of the table.\<close>

definition matching :: "AISuggestionPipeline \<Rightarrow> pydict \<Rightarrow> string \<Rightarrow> pydict list" where
  "matching self state game = filter (\<lambda>r. matches r state) (rules_for self game)"

text \<open>
  A rule with an integer priority (a Python boolean is an integer), and the number it
  is sorted by.
\<close>

definition has_int_priority :: "pydict \<Rightarrow> bool" where
  "has_int_priority r = (case map_of r ''priority'' of None \<Rightarrow> False | Some p \<Rightarrow> is_number p)"

definition priority :: "pydict \<Rightarrow> int" where
  "priority r = int_of (key_value (\<lambda>x. subscript x ''priority'') r)"

section \<open>Facts about the loops and the sort\<close>

lemma check_conditions_returns: "\<exists>b. check_conditions r S = Inr b"
  by (cases "check_conditions_body r S") (auto simp: check_conditions_def try_except_def)

lemma check_conditions_cases: "check_conditions r S = Inr (matches r S)"
  using check_conditions_returns [of r S] by (auto simp: matches_def)

lemma active_loop_filter:
  "active_loop rs S acc = Inr (acc @ filter (\<lambda>r. matches r S) rs)"
  by (induction rs arbitrary: acc) (simp_all add: check_conditions_cases)

lemma subkey_loop_iff:
  "subkey_loop e d \<longleftrightarrow> (\<forall>(sk, x) \<in> set e. \<exists>w. map_of d sk = Some w \<and> py_eq w x)"
  by (induction e) (auto simp: py_ne_def split: option.splits if_splits)

lemma conditions_loop_append:
  "conditions_loop (xs @ ys) S \<longleftrightarrow> conditions_loop xs S \<and> conditions_loop ys S"
  by (induction xs) (auto split: option.splits if_splits)

lemma conditions_loop_absent:
  "k \<in> set (map fst cs) \<Longrightarrow> map_of S k = None \<Longrightarrow> \<not> conditions_loop cs S"
proof (induction cs)
  case Nil
  then show ?case by simp
next
  case (Cons c cs)
  obtain key v where c: "c = (key, v)" by (cases c)
  show ?case
  proof (cases "key = k")
    case True
    then show ?thesis using Cons.prems by (simp add: c)
  next
    case False
    then have "\<not> conditions_loop cs S" using Cons by (simp add: c)
    then show ?thesis by (simp add: c split: option.splits)
  qed
qed

lemma conditions_loop_cong:
  "(\<And>k. k \<in> fst ` set cs \<Longrightarrow> map_of S k = map_of T k) \<Longrightarrow>
     conditions_loop cs S = conditions_loop cs T"
proof (induction cs)
  case Nil
  show ?case by simp
next
  case (Cons c cs)
  obtain key v where c: "c = (key, v)" by (cases c)
  have 1: "map_of S key = map_of T key" using Cons.prems [of key] by (simp add: c)
  have 2: "conditions_loop cs S = conditions_loop cs T"
    by (rule Cons.IH) (simp add: Cons.prems)
  show ?case by (simp add: c 1 2 split: option.splits)
qed

lemma sort_keys_Inr:
  "\<forall>x \<in> set xs. \<exists>k. key x = Inr k \<Longrightarrow> sort_keys key xs = Inr (map (key_value key) xs)"
  by (induction xs) (auto simp: key_value_def)

lemma sort_key_short: "length xs < 2 \<Longrightarrow> sort_key f xs = xs"
  by (cases xs; cases "tl xs") auto

lemma priority_fun: "(\<lambda>x. int_of (key_value (\<lambda>x. subscript x ''priority'') x)) = priority"
  by (rule ext) (simp add: priority_def)

lemma list_sort_int:
  assumes "list_all has_int_priority xs"
  shows "list_sort (\<lambda>x. subscript x ''priority'') xs = Inr (sort_key priority xs)"
proof -
  let ?key = "\<lambda>x. subscript x ''priority''"
  have k: "\<forall>x \<in> set xs. \<exists>p. ?key x = Inr p \<and> is_number p"
    using assms
    by (auto simp: list_all_iff has_int_priority_def subscript_def split: option.splits)
  then have "sort_keys ?key xs = Inr (map (key_value ?key) xs)"
    by (intro sort_keys_Inr) blast
  moreover have "list_all is_number (map (key_value ?key) xs)"
    using k by (auto simp: list_all_iff key_value_def)
  ultimately show ?thesis
    by (simp add: list_sort_def priority_fun sort_key_short)
qed

text \<open>A sort that returns only rearranges its list.\<close>

lemma list_sort_mset: "list_sort key xs = Inr ys \<Longrightarrow> mset ys = mset xs"
  by (auto simp: list_sort_def split: sum.splits if_splits)

lemma get_suggestions_body_eq:
  "get_suggestions_body self S D =
     (case list_sort (\<lambda>x. subscript x ''priority'') (matching self S D) of
        Inl e \<Rightarrow> Inl e
      | Inr ys \<Rightarrow> Inr (take 3 ys))"
  by (simp add: get_suggestions_body_def active_loop_filter matching_def rules_for_def)

lemma get_suggestions_int:
  assumes "list_all has_int_priority (rules_for self D)"
  shows "get_suggestions_body self S D = Inr (take 3 (sort_key priority (matching self S D)))"
    and "get_suggestions self S D = Inr (take 3 (sort_key priority (matching self S D)))"
proof -
  have "list_all has_int_priority (matching self S D)"
    using assms by (simp add: matching_def list_all_iff)
  then show b: "get_suggestions_body self S D =
      Inr (take 3 (sort_key priority (matching self S D)))"
    by (simp add: get_suggestions_body_eq list_sort_int)
  show "get_suggestions self S D = Inr (take 3 (sort_key priority (matching self S D)))"
    by (simp add: get_suggestions_def b try_except_def)
qed

lemma check_conditions_dict:
  "dict_get r ''conditions'' (PDict []) = PDict cs \<Longrightarrow>
     check_conditions r S = Inr (conditions_loop cs S)"
  by (simp add: check_conditions_def check_conditions_body_def try_except_def)

lemma check_conditions_not_dict:
  "\<not> isinstance_dict (dict_get r ''conditions'' (PDict [])) \<Longrightarrow>
     check_conditions_body r S = Inl AttributeError \<and> check_conditions r S = Inr False"
  by (simp add: check_conditions_def check_conditions_body_def try_except_def)

lemma conditions_cases:
  obtains cs where "dict_get r ''conditions'' (PDict []) = PDict cs"
  | "\<not> isinstance_dict (dict_get r ''conditions'' (PDict []))"
  by (cases "dict_get r ''conditions'' (PDict [])") auto

text \<open>The definitions that evaluate the pipeline on the table and on a concrete state.\<close>

lemmas rule_defs =
  suggestion_def combat_utility_def exposed_warning_def save_money_def use_ultimate_def
  rotate_site_def plant_spike_def defend_spike_def request_smoke_def request_flash_def
  request_healing_def check_corners_def communicate_team_def use_ability_q_def
  use_ability_e_def switch_to_rifle_def default_tip_def csgo_combat_utility_def
  csgo_save_money_def team_fight_def farm_gold_def

lemmas table_defs =
  init_def SUGGESTIONS_def valorant_suggestions_def csgo_suggestions_def
  dota2_suggestions_def

lemmas pipeline_defs =
  get_suggestions_def get_suggestions_body_def try_except_def dict_get_def subscript_def
  list_sort_def key_value_def check_conditions_def check_conditions_body_def py_ne_def
  matching_def matches_def rules_for_def

text \<open>Every rule of every game of \<^verbatim>\<open>SUGGESTIONS\<close> has an integer priority.\<close>

lemma init_int_priorities: "list_all has_int_priority (rules_for init game)"
  by (simp add: rules_for_def dict_get_def table_defs rule_defs has_int_priority_def)

lemma py_eq_scalar:
  "py_eq sv (PBool b) \<longleftrightarrow> sv = PBool b \<or> sv = PInt (if b then 1 else 0)"
  "py_eq sv (PInt n) \<longleftrightarrow> sv = PInt n \<or> (sv = PBool True \<and> n = 1) \<or> (sv = PBool False \<and> n = 0)"
  "py_eq sv (PStr s) \<longleftrightarrow> sv = PStr s"
  "py_eq sv PNone \<longleftrightarrow> sv = PNone"
  by (cases sv; auto)+

lemma conditions_loop_scalar:
  "\<not> isinstance_dict v \<Longrightarrow>
     conditions_loop [(k, v)] S \<longleftrightarrow> (\<exists>sv. map_of S k = Some sv \<and> py_eq sv v)"
  by (auto simp: py_ne_def split: option.splits)

lemma conditions_loop_nested:
  "map_of S k = Some sv \<Longrightarrow>
     conditions_loop [(k, PDict e)] S \<longleftrightarrow>
       isinstance_dict sv \<and> (\<forall>(sk, x) \<in> set e. \<exists>w. map_of (items sv) sk = Some w \<and> py_eq w x)"
  by (cases sv) (auto simp: py_ne_def subkey_loop_iff)

lemma conditions_loop_split:
  "conditions_loop (cs1 @ (k, v) # cs2) S \<longleftrightarrow>
     conditions_loop [(k, v)] S \<and> conditions_loop (cs1 @ cs2) S"
proof -
  have "conditions_loop (cs1 @ (k, v) # cs2) S \<longleftrightarrow>
      conditions_loop cs1 S \<and> conditions_loop ([(k, v)] @ cs2) S"
    using conditions_loop_append [of cs1 "(k, v) # cs2" S] by simp
  then show ?thesis
    using conditions_loop_append [of "[(k, v)]" cs2 S] conditions_loop_append [of cs1 cs2 S]
    by blast
qed

lemma matches_dict:
  "dict_get r ''conditions'' (PDict []) = PDict cs \<Longrightarrow> matches r S = conditions_loop cs S"
  by (simp add: matches_def check_conditions_dict)

lemma matches_only_conditions:
  "matches [(''conditions'', PDict cs)] S = conditions_loop cs S"
  by (rule matches_dict) (simp add: dict_get_def)

lemma get_suggestions_matching_cong:
  "matching self S D = matching self' S D' \<Longrightarrow>
     get_suggestions self S D = get_suggestions self' S D'"
  by (simp add: get_suggestions_def get_suggestions_body_eq)

section \<open>Matching one condition\<close>

text \<open>
  Claim C1, as the code has it. A condition with a scalar expected value is checked with
  Python's \<^verbatim>\<open>!=\<close>, without a test of the type: a rule matches exactly when the state has
  the key with a value equal to the expected one under \<^verbatim>\<open>==\<close> and the other conditions of
  the rule hold. Under \<^verbatim>\<open>==\<close> a boolean equals the same boolean and the integer 1 (for
  \<open>True\<close>) or 0 (for \<open>False\<close>), an integer equals the same integer and the boolean of that
  number, a string equals only the same string, \<^verbatim>\<open>None\<close> only \<^verbatim>\<open>None\<close>.
\<close>

theorem scalar_condition_python_equality:
  "(dict_get r ''conditions'' (PDict []) = PDict (cs1 @ (k, v) # cs2) \<and> \<not> isinstance_dict v \<longrightarrow>
      (matches r state \<longleftrightarrow>
         (\<exists>sv. map_of state k = Some sv \<and> py_eq sv v) \<and>
         matches [(''conditions'', PDict (cs1 @ cs2))] state)) \<and>
   (py_eq sv (PBool b) \<longleftrightarrow> sv = PBool b \<or> sv = PInt (if b then 1 else 0)) \<and>
   (py_eq sv (PInt n) \<longleftrightarrow>
      sv = PInt n \<or> (sv = PBool True \<and> n = 1) \<or> (sv = PBool False \<and> n = 0)) \<and>
   (py_eq sv (PStr s) \<longleftrightarrow> sv = PStr s) \<and>
   (py_eq sv PNone \<longleftrightarrow> sv = PNone)"
proof -
  have "matches r state \<longleftrightarrow>
         (\<exists>sv. map_of state k = Some sv \<and> py_eq sv v) \<and>
         matches [(''conditions'', PDict (cs1 @ cs2))] state"
    if c: "dict_get r ''conditions'' (PDict []) = PDict (cs1 @ (k, v) # cs2)"
      and v: "\<not> isinstance_dict v"
    unfolding matches_dict [OF c] matches_only_conditions conditions_loop_split [of cs1 k v cs2]
      conditions_loop_scalar [OF v] ..
  then show ?thesis
    using py_eq_scalar [of sv] by blast
qed

theorem scalar_condition_python_equality_witness:
  "dict_get [(''conditions'', PDict [(''combat'', PBool True)])] ''conditions'' (PDict []) =
     PDict ([] @ (''combat'', PBool True) # []) \<and>
   \<not> isinstance_dict (PBool True) \<and>
   matches [(''conditions'', PDict [(''combat'', PBool True)])] [(''combat'', PBool True)] \<and>
   matches [(''conditions'', PDict [(''combat'', PBool True)])] [(''combat'', PInt 1)] \<and>
   \<not> matches [(''conditions'', PDict [(''combat'', PBool True)])] [(''combat'', PInt 2)] \<and>
   \<not> matches [(''conditions'', PDict [(''combat'', PBool True)])] [(''combat'', PStr ''True'')] \<and>
   \<not> matches [(''conditions'', PDict [(''combat'', PBool True)])] [(''combat'', PBool False)] \<and>
   \<not> matches [(''conditions'', PDict [(''combat'', PBool True)])] [(''exposed'', PBool True)] \<and>
   \<not> py_eq (PStr ''True'') (PBool True)"
proof -
  let ?r = "[(''conditions'', PDict [(''combat'', PBool True)])]"
  have c: "dict_get ?r ''conditions'' (PDict []) = PDict ([] @ (''combat'', PBool True) # [])"
    by (simp add: dict_get_def)
  have e: "matches [(''conditions'', PDict ([] @ []))] S" for S
    by (simp add: matches_only_conditions)
  show ?thesis
    using c e
      scalar_condition_python_equality [of ?r "[]" "''combat''" "PBool True" "[]"
        "[(''combat'', PBool True)]" "PStr ''True''" True]
      scalar_condition_python_equality [of ?r "[]" "''combat''" "PBool True" "[]"
        "[(''combat'', PInt 1)]"]
      scalar_condition_python_equality [of ?r "[]" "''combat''" "PBool True" "[]"
        "[(''combat'', PInt 2)]"]
      scalar_condition_python_equality [of ?r "[]" "''combat''" "PBool True" "[]"
        "[(''combat'', PStr ''True'')]"]
      scalar_condition_python_equality [of ?r "[]" "''combat''" "PBool True" "[]"
        "[(''combat'', PBool False)]"]
      scalar_condition_python_equality [of ?r "[]" "''combat''" "PBool True" "[]"
        "[(''exposed'', PBool True)]"]
    by simp
qed

text \<open>
  Claim C1 as stated fails: the state \<^verbatim>\<open>{"combat": 1}\<close> satisfies the condition
  \<^verbatim>\<open>{"combat": True}\<close>, although the integer 1 is not the boolean \<open>True\<close>.
\<close>

theorem combat_one_satisfies_true:
  "check_conditions [(''conditions'', PDict [(''combat'', PBool True)])] [(''combat'', PInt 1)] =
     Inr True \<and>
   PInt 1 \<noteq> PBool True"
  by (simp add: pipeline_defs)

section \<open>Sorting and truncation\<close>

text \<open>
  Claim C2. For a game whose rules all carry an integer priority, and every state, the
  returned list is sorted by ascending priority, and the sort is stable: for every priority
  \<open>p\<close>, the returned rules of priority \<open>p\<close> are an initial part of the matching rules of
  priority \<open>p\<close> taken in the order of the table, and so appear in the same relative order
  as in the table. Every game of \<^verbatim>\<open>SUGGESTIONS\<close> has integer priorities
  (\<open>init_int_priorities\<close>).
\<close>

theorem sorted_by_priority_stable:
  assumes "list_all has_int_priority (rules_for self game)"
  shows "\<exists>xs. get_suggestions self state game = Inr xs \<and>
           sorted (map priority xs) \<and>
           (\<forall>p. prefix (filter (\<lambda>r. priority r = p) xs)
                  (filter (\<lambda>r. priority r = p) (matching self state game))) \<and>
           (\<forall>p. subseq (filter (\<lambda>r. priority r = p) xs) (rules_for self game))"
proof -
  let ?m = "matching self state game"
  let ?xs = "take 3 (sort_key priority ?m)"
  have r: "get_suggestions self state game = Inr ?xs"
    by (rule get_suggestions_int(2) [OF assms])
  have "sorted (take 3 (map priority (sort_key priority ?m)))"
    by (rule sorted_wrt_take) simp
  then have s: "sorted (map priority ?xs)" by (simp add: take_map)
  have p: "prefix (filter (\<lambda>r. priority r = p) ?xs) (filter (\<lambda>r. priority r = p) ?m)" for p
  proof -
    have "prefix (filter (\<lambda>r. priority r = p) ?xs)
            (filter (\<lambda>r. priority r = p) (sort_key priority ?m))"
      by (rule filter_mono_prefix) (rule take_is_prefix)
    then show ?thesis by (simp add: sort_key_stable)
  qed
  have q: "subseq (filter (\<lambda>r. priority r = p) ?xs) (rules_for self game)" for p
  proof -
    have "subseq (filter (\<lambda>r. priority r = p) ?xs) (filter (\<lambda>r. priority r = p) ?m)"
      using p by (rule prefix_imp_subseq)
    also have "subseq (filter (\<lambda>r. priority r = p) ?m) ?m" by simp
    also have "subseq ?m (rules_for self game)" by (simp add: matching_def)
    finally show ?thesis .
  qed
  show ?thesis using r s p q by blast
qed

text \<open>
  In the table, \<^verbatim>\<open>check_corners\<close> (priority 3) stands before \<^verbatim>\<open>communicate_team\<close>
  (priority 2), and \<^verbatim>\<open>exposed_warning\<close> (priority 2) before both: the two rules of
  priority 2 come out first, in the order of the table.
\<close>

theorem sorted_by_priority_stable_witness:
  "list_all has_int_priority (rules_for init ''valorant'') \<and>
   matching init
     [(''exposed'', PBool True), (''entering_new_area'', PBool True),
      (''need_coordination'', PBool True), (''combat'', PBool False)] ''valorant'' =
     [exposed_warning, check_corners, communicate_team, default_tip] \<and>
   get_suggestions init
     [(''exposed'', PBool True), (''entering_new_area'', PBool True),
      (''need_coordination'', PBool True), (''combat'', PBool False)] ''valorant'' =
     Inr [exposed_warning, communicate_team, check_corners] \<and>
   map priority [exposed_warning, communicate_team, check_corners] = [2, 2, 3] \<and>
   sorted (map priority [exposed_warning, communicate_team, check_corners]) \<and>
   prefix (filter (\<lambda>r. priority r = 2) [exposed_warning, communicate_team, check_corners])
     (filter (\<lambda>r. priority r = 2)
        [exposed_warning, check_corners, communicate_team, default_tip])"
proof -
  let ?S = "[(''exposed'', PBool True), (''entering_new_area'', PBool True),
      (''need_coordination'', PBool True), (''combat'', PBool False)]"
  have h: "list_all has_int_priority (rules_for init ''valorant'')"
    by (rule init_int_priorities)
  have m: "matching init ?S ''valorant'' =
      [exposed_warning, check_corners, communicate_team, default_tip]"
    by (simp add: pipeline_defs table_defs rule_defs)
  have g: "get_suggestions init ?S ''valorant'' =
      Inr [exposed_warning, communicate_team, check_corners]"
    by (simp add: pipeline_defs table_defs rule_defs)
  have p: "map priority [exposed_warning, communicate_team, check_corners] = [2, 2, 3]"
    by (simp add: priority_def key_value_def subscript_def rule_defs)
  obtain xs where xs: "get_suggestions init ?S ''valorant'' = Inr xs"
    "sorted (map priority xs)"
    "\<forall>p. prefix (filter (\<lambda>r. priority r = p) xs)
        (filter (\<lambda>r. priority r = p) (matching init ?S ''valorant''))"
    using sorted_by_priority_stable [OF h, of ?S] by blast
  have e: "xs = [exposed_warning, communicate_team, check_corners]"
    using xs(1) g by simp
  show ?thesis
    using h m g p xs(2,3) unfolding e m by blast
qed

text \<open>
  Claim C3. For every state and game, \<^verbatim>\<open>get_suggestions\<close> returns a list of at most 3
  entries. For a game whose rules all carry an integer priority the list is the first 3 of
  the matching rules sorted by priority, its length is the smaller of 3 and the number of
  matching rules, and when fewer than 3 rules match it holds exactly the matching rules,
  each as often as it matches: nothing is added.
\<close>

theorem at_most_three_suggestions:
  "\<exists>xs. get_suggestions self state game = Inr xs \<and> length xs \<le> 3 \<and>
     (list_all has_int_priority (rules_for self game) \<longrightarrow>
        xs = take 3 (sort_key priority (matching self state game)) \<and>
        length xs = min 3 (length (matching self state game)) \<and>
        (length (matching self state game) < 3 \<longrightarrow>
           mset xs = mset (matching self state game)))"
proof (cases "get_suggestions_body self state game")
  case (Inl e)
  moreover have "\<not> list_all has_int_priority (rules_for self game)"
    using Inl get_suggestions_int(1) [of self game state] by auto
  ultimately show ?thesis by (simp add: get_suggestions_def try_except_def)
next
  case (Inr xs)
  then have r: "get_suggestions self state game = Inr xs"
    by (simp add: get_suggestions_def try_except_def)
  have l: "length xs \<le> 3"
    using Inr by (auto simp: get_suggestions_body_eq split: sum.splits)
  have "xs = take 3 (sort_key priority (matching self state game))"
    if "list_all has_int_priority (rules_for self game)"
    using get_suggestions_int(1) [OF that, of state] Inr by simp
  then show ?thesis using r l by (auto simp: min_def)
qed

text \<open>Four rules match the first state and three are returned; two match the second.\<close>

theorem at_most_three_suggestions_witness:
  "list_all has_int_priority (rules_for init ''valorant'') \<and>
   length (matching init
     [(''exposed'', PBool True), (''entering_new_area'', PBool True),
      (''need_coordination'', PBool True), (''combat'', PBool False)] ''valorant'') = 4 \<and>
   get_suggestions init
     [(''exposed'', PBool True), (''entering_new_area'', PBool True),
      (''need_coordination'', PBool True), (''combat'', PBool False)] ''valorant'' =
     Inr [exposed_warning, communicate_team, check_corners] \<and>
   length (matching init [(''exposed'', PBool True)] ''valorant'') < 3 \<and>
   matching init [(''exposed'', PBool True)] ''valorant'' = [exposed_warning, default_tip] \<and>
   get_suggestions init [(''exposed'', PBool True)] ''valorant'' =
     Inr [exposed_warning, default_tip] \<and>
   mset [exposed_warning, default_tip] =
     mset (matching init [(''exposed'', PBool True)] ''valorant'')"
proof -
  let ?S = "[(''exposed'', PBool True), (''entering_new_area'', PBool True),
      (''need_coordination'', PBool True), (''combat'', PBool False)]"
  let ?T = "[(''exposed'', PBool True)]"
  have h: "list_all has_int_priority (rules_for init ''valorant'')"
    by (rule init_int_priorities)
  have m: "matching init ?S ''valorant'' =
      [exposed_warning, check_corners, communicate_team, default_tip]"
    by (simp add: pipeline_defs table_defs rule_defs)
  have g: "get_suggestions init ?S ''valorant'' =
      Inr [exposed_warning, communicate_team, check_corners]"
    by (simp add: pipeline_defs table_defs rule_defs)
  have n: "matching init ?T ''valorant'' = [exposed_warning, default_tip]"
    by (simp add: pipeline_defs table_defs rule_defs)
  have k: "get_suggestions init ?T ''valorant'' = Inr [exposed_warning, default_tip]"
    by (simp add: pipeline_defs table_defs rule_defs)
  show ?thesis
    using h m g n k
      at_most_three_suggestions [of init ?S "''valorant''"]
      at_most_three_suggestions [of init ?T "''valorant''"]
    by simp
qed

section \<open>Absent keys\<close>

text \<open>
  Claim C4. If a key named by the conditions of a rule is absent from the state, the rule
  does not match, whatever the other conditions and the rest of the state are.
\<close>

theorem absent_key_never_matches:
  assumes "k \<in> set (condition_keys r)" and "k \<notin> fst ` set state"
  shows "check_conditions r state = Inr False"
proof (cases r rule: conditions_cases)
  case (1 cs)
  have "k \<in> set (map fst cs)" using assms(1) by (simp add: condition_keys_def 1)
  moreover have "map_of state k = None" using assms(2) by (simp add: map_of_eq_None_iff)
  ultimately have "\<not> conditions_loop cs state" by (rule conditions_loop_absent)
  then show ?thesis by (simp add: check_conditions_dict [OF 1])
next
  case 2
  then show ?thesis by (simp add: check_conditions_not_dict)
qed

text \<open>The state satisfies the first condition of \<^verbatim>\<open>save_money\<close> and lacks the key of the second.\<close>

theorem absent_key_never_matches_witness:
  "''round_time'' \<in> set (condition_keys save_money) \<and>
   ''round_time'' \<notin> fst ` set [(''team_money'', PStr ''low''), (''combat'', PBool False)] \<and>
   check_conditions save_money [(''team_money'', PStr ''low''), (''combat'', PBool False)] =
     Inr False"
proof -
  let ?S = "[(''team_money'', PStr ''low''), (''combat'', PBool False)]"
  have a: "''round_time'' \<in> set (condition_keys save_money)"
    by (simp add: condition_keys_def dict_get_def rule_defs)
  have b: "''round_time'' \<notin> fst ` set ?S" by simp
  show ?thesis using a b absent_key_never_matches [OF a b] by simp
qed

section \<open>Nested conditions\<close>

text \<open>
  Claim C5, as the code has it. Let the conditions of a rule expect a nested mapping for
  the key \<open>k\<close>, and let the state have the key \<open>k\<close>. If the value of the state is a mapping
  too, the rule matches exactly when every sub-key listed in the expectation is in that
  mapping with a value equal to the expected one under Python's \<^verbatim>\<open>==\<close> (sub-keys of the
  state that are not listed play no part) and the other conditions of the rule hold. If the
  value of the state is not a mapping, the rule does not match.
\<close>

theorem nested_condition_python_equality:
  "(dict_get r ''conditions'' (PDict []) = PDict (cs1 @ (k, PDict e) # cs2) \<and>
    map_of state k = Some sv \<longrightarrow>
      (isinstance_dict sv \<longrightarrow>
         (matches r state \<longleftrightarrow>
            (\<forall>(subkey, subval) \<in> set e.
               \<exists>w. map_of (items sv) subkey = Some w \<and> py_eq w subval) \<and>
            matches [(''conditions'', PDict (cs1 @ cs2))] state)) \<and>
      (\<not> isinstance_dict sv \<longrightarrow> \<not> matches r state))"
proof -
  have "(isinstance_dict sv \<longrightarrow>
         (matches r state \<longleftrightarrow>
            (\<forall>(subkey, subval) \<in> set e.
               \<exists>w. map_of (items sv) subkey = Some w \<and> py_eq w subval) \<and>
            matches [(''conditions'', PDict (cs1 @ cs2))] state)) \<and>
      (\<not> isinstance_dict sv \<longrightarrow> \<not> matches r state)"
    if c: "dict_get r ''conditions'' (PDict []) = PDict (cs1 @ (k, PDict e) # cs2)"
      and s: "map_of state k = Some sv"
    unfolding matches_dict [OF c] matches_only_conditions
      conditions_loop_split [of cs1 k "PDict e" cs2] conditions_loop_nested [OF s]
    by blast
  then show ?thesis by blast
qed

text \<open>The rule and the states of the claim's example, and a state whose value is no mapping.\<close>

theorem nested_condition_python_equality_witness:
  "dict_get [(''conditions'', PDict [(''abilities'', PDict [(''Q'', PBool True)])])]
      ''conditions'' (PDict []) =
     PDict ([] @ (''abilities'', PDict [(''Q'', PBool True)]) # []) \<and>
   map_of [(''abilities'', PDict [(''Q'', PBool False), (''E'', PBool True)])] ''abilities'' =
     Some (PDict [(''Q'', PBool False), (''E'', PBool True)]) \<and>
   \<not> matches [(''conditions'', PDict [(''abilities'', PDict [(''Q'', PBool True)])])]
       [(''abilities'', PDict [(''Q'', PBool False), (''E'', PBool True)])] \<and>
   map_of [(''abilities'', PDict [(''Q'', PBool True), (''E'', PBool False)])] ''abilities'' =
     Some (PDict [(''Q'', PBool True), (''E'', PBool False)]) \<and>
   matches [(''conditions'', PDict [(''abilities'', PDict [(''Q'', PBool True)])])]
       [(''abilities'', PDict [(''Q'', PBool True), (''E'', PBool False)])] \<and>
   map_of [(''abilities'', PStr ''Q'')] ''abilities'' = Some (PStr ''Q'') \<and>
   \<not> isinstance_dict (PStr ''Q'') \<and>
   \<not> matches [(''conditions'', PDict [(''abilities'', PDict [(''Q'', PBool True)])])]
       [(''abilities'', PStr ''Q'')]"
proof -
  let ?e = "[(''Q'', PBool True)]"
  let ?r = "[(''conditions'', PDict [(''abilities'', PDict ?e)])]"
  let ?d1 = "[(''Q'', PBool False), (''E'', PBool True)]"
  let ?d2 = "[(''Q'', PBool True), (''E'', PBool False)]"
  have c: "dict_get ?r ''conditions'' (PDict []) = PDict ([] @ (''abilities'', PDict ?e) # [])"
    by (simp add: dict_get_def)
  have e: "matches [(''conditions'', PDict ([] @ []))] S" for S
    by (simp add: matches_only_conditions)
  show ?thesis
    using c e
      nested_condition_python_equality [of ?r "[]" "''abilities''" ?e "[]"
        "[(''abilities'', PDict ?d1)]" "PDict ?d1"]
      nested_condition_python_equality [of ?r "[]" "''abilities''" ?e "[]"
        "[(''abilities'', PDict ?d2)]" "PDict ?d2"]
      nested_condition_python_equality [of ?r "[]" "''abilities''" ?e "[]"
        "[(''abilities'', PStr ''Q'')]" "PStr ''Q''"]
    by simp
qed

text \<open>
  Claim C5 as stated fails: the rule with the conditions \<^verbatim>\<open>{"abilities": {"Q": True}}\<close>
  matches the state \<^verbatim>\<open>{"abilities": {"Q": 1}}\<close>, in which the sub-key \<^verbatim>\<open>Q\<close> does not have
  the expected value \<open>True\<close> but the integer 1.
\<close>

theorem ability_one_satisfies_true:
  "check_conditions [(''conditions'', PDict [(''abilities'', PDict [(''Q'', PBool True)])])]
     [(''abilities'', PDict [(''Q'', PInt 1)])] = Inr True \<and>
   map_of [(''Q'', PInt 1)] ''Q'' \<noteq> Some (PBool True)"
  by (simp add: pipeline_defs)

section \<open>Empty conditions\<close>

text \<open>
  Claim C6. A rule whose conditions are the empty mapping matches every state. In the
  table, \<^verbatim>\<open>default_tip\<close> is the only rule of \<^verbatim>\<open>'valorant'\<close> with empty conditions; every
  other rule of the game names a key and does not match the empty state; and for the empty
  state and the game \<^verbatim>\<open>'valorant'\<close> the pipeline returns exactly \<^verbatim>\<open>default_tip\<close>.
\<close>

theorem empty_conditions_match_every_state:
  "(dict_get r ''conditions'' (PDict []) = PDict [] \<longrightarrow> check_conditions r state = Inr True) \<and>
   dict_get default_tip ''conditions'' (PDict []) = PDict [] \<and>
   get_suggestions init [] ''valorant'' = Inr [default_tip] \<and>
   filter (\<lambda>r. dict_get r ''conditions'' (PDict []) = PDict []) (rules_for init ''valorant'') =
     [default_tip] \<and>
   list_all (\<lambda>r. r = default_tip \<or> condition_keys r \<noteq> [] \<and> check_conditions r [] = Inr False)
     (rules_for init ''valorant'')"
proof -
  have 1: "check_conditions r state = Inr True"
    if "dict_get r ''conditions'' (PDict []) = PDict []"
    using check_conditions_dict [OF that, of state] by simp
  have 2: "dict_get default_tip ''conditions'' (PDict []) = PDict []"
    by (simp add: dict_get_def rule_defs)
  have 3: "get_suggestions init [] ''valorant'' = Inr [default_tip]"
    by (simp add: pipeline_defs table_defs rule_defs)
  have 4: "filter (\<lambda>r. dict_get r ''conditions'' (PDict []) = PDict [])
      (rules_for init ''valorant'') = [default_tip]"
    by (simp add: rules_for_def dict_get_def table_defs rule_defs)
  have 5: "list_all
      (\<lambda>r. r = default_tip \<or> condition_keys r \<noteq> [] \<and> check_conditions r [] = Inr False)
      (rules_for init ''valorant'')"
    by (simp add: condition_keys_def pipeline_defs table_defs rule_defs)
  show ?thesis using 1 2 3 4 5 by blast
qed

text \<open>The default rule on a populated state, and a rule without the key \<^verbatim>\<open>conditions\<close>.\<close>

theorem empty_conditions_match_every_state_witness:
  "dict_get default_tip ''conditions'' (PDict []) = PDict [] \<and>
   check_conditions default_tip
     [(''combat'', PBool True), (''player_health'', PInt 100), (''abilities'', PDict [])] =
     Inr True \<and>
   dict_get [(''id'', PStr ''bare'')] ''conditions'' (PDict []) = PDict [] \<and>
   check_conditions [(''id'', PStr ''bare'')] [] = Inr True"
proof -
  have a: "dict_get default_tip ''conditions'' (PDict []) = PDict []"
    by (simp add: dict_get_def rule_defs)
  have b: "dict_get [(''id'', PStr ''bare'')] ''conditions'' (PDict []) = PDict []"
    by (simp add: dict_get_def)
  show ?thesis
    using a b
      empty_conditions_match_every_state [of default_tip
        "[(''combat'', PBool True), (''player_health'', PInt 100), (''abilities'', PDict [])]"]
      empty_conditions_match_every_state [of "[(''id'', PStr ''bare'')]" "[]"]
    by simp
qed

section \<open>Exceptions\<close>

text \<open>
  Claim C7. \<^verbatim>\<open>_check_conditions\<close> and \<^verbatim>\<open>get_suggestions\<close> return a value for every rule,
  state, table and game: no exception reaches the caller. An exception while the conditions
  of one rule are evaluated makes that rule a rule that does not match, and the rules around
  it are evaluated as before: the result is that of the table without the rule. An exception
  in the body of \<^verbatim>\<open>get_suggestions\<close> makes the result the empty list.
\<close>

theorem faults_never_reach_the_caller:
  "(\<exists>b. check_conditions r state = Inr b) \<and>
   (\<exists>xs. get_suggestions self state game = Inr xs) \<and>
   (check_conditions_body r state = Inl e \<longrightarrow>
      check_conditions r state = Inr False \<and>
      (rules_for self game = pre @ r # post \<and> rules_for self' game = pre @ post \<longrightarrow>
         get_suggestions self state game = get_suggestions self' state game)) \<and>
   (get_suggestions_body self state game = Inl e' \<longrightarrow>
      get_suggestions self state game = Inr [])"
proof -
  have 1: "\<exists>b. check_conditions r state = Inr b"
    by (rule check_conditions_returns)
  have 2: "\<exists>xs. get_suggestions self state game = Inr xs"
    by (cases "get_suggestions_body self state game")
      (simp_all add: get_suggestions_def try_except_def)
  have 3: "check_conditions r state = Inr False"
    if "check_conditions_body r state = Inl e"
    using that by (simp add: check_conditions_def try_except_def)
  have 4: "get_suggestions self state game = get_suggestions self' state game"
    if f: "check_conditions_body r state = Inl e"
      and a: "rules_for self game = pre @ r # post" and b: "rules_for self' game = pre @ post"
  proof (rule get_suggestions_matching_cong)
    have "\<not> matches r state" using 3 [OF f] by (simp add: matches_def)
    then show "matching self state game = matching self' state game"
      by (simp add: matching_def a b)
  qed
  have 5: "get_suggestions self state game = Inr []"
    if "get_suggestions_body self state game = Inl e'"
    using that by (simp add: get_suggestions_def try_except_def)
  show ?thesis using 1 2 3 4 5 by blast
qed

text \<open>
  A rule whose \<^verbatim>\<open>conditions\<close> is a string raises \<^verbatim>\<open>AttributeError\<close> and is skipped; a
  matching rule without \<^verbatim>\<open>priority\<close> raises \<^verbatim>\<open>KeyError\<close> in the sort and empties the result.
\<close>

theorem faults_never_reach_the_caller_witness:
  "check_conditions_body [(''id'', PStr ''broken''), (''priority'', PInt 1), (''conditions'', PStr ''combat'')]
      [(''combat'', PBool True)] = Inl AttributeError \<and>
   check_conditions [(''id'', PStr ''broken''), (''priority'', PInt 1), (''conditions'', PStr ''combat'')]
      [(''combat'', PBool True)] = Inr False \<and>
   rules_for \<lparr>suggestions = [(''demo'',
       [exposed_warning,
        [(''id'', PStr ''broken''), (''priority'', PInt 1), (''conditions'', PStr ''combat'')],
        default_tip])]\<rparr> ''demo'' =
     [exposed_warning] @
       [(''id'', PStr ''broken''), (''priority'', PInt 1), (''conditions'', PStr ''combat'')] #
       [default_tip] \<and>
   rules_for \<lparr>suggestions = [(''demo'', [exposed_warning, default_tip])]\<rparr> ''demo'' =
     [exposed_warning] @ [default_tip] \<and>
   get_suggestions \<lparr>suggestions = [(''demo'',
       [exposed_warning,
        [(''id'', PStr ''broken''), (''priority'', PInt 1), (''conditions'', PStr ''combat'')],
        default_tip])]\<rparr> [(''combat'', PBool True)] ''demo'' =
     get_suggestions \<lparr>suggestions = [(''demo'', [exposed_warning, default_tip])]\<rparr>
       [(''combat'', PBool True)] ''demo'' \<and>
   get_suggestions \<lparr>suggestions = [(''demo'', [exposed_warning, default_tip])]\<rparr>
       [(''combat'', PBool True)] ''demo'' = Inr [default_tip] \<and>
   get_suggestions_body \<lparr>suggestions = [(''demo'',
       [default_tip, [(''id'', PStr ''unranked''), (''conditions'', PDict [])]])]\<rparr>
       [(''combat'', PBool True)] ''demo'' = Inl KeyError \<and>
   get_suggestions \<lparr>suggestions = [(''demo'',
       [default_tip, [(''id'', PStr ''unranked''), (''conditions'', PDict [])]])]\<rparr>
       [(''combat'', PBool True)] ''demo'' = Inr []"
proof -
  let ?broken = "[(''id'', PStr ''broken''), (''priority'', PInt 1), (''conditions'', PStr ''combat'')]"
  let ?S = "[(''combat'', PBool True)]"
  let ?with = "\<lparr>suggestions = [(''demo'', [exposed_warning, ?broken, default_tip])]\<rparr>"
  let ?without = "\<lparr>suggestions = [(''demo'', [exposed_warning, default_tip])]\<rparr>"
  let ?unranked = "\<lparr>suggestions = [(''demo'',
       [default_tip, [(''id'', PStr ''unranked''), (''conditions'', PDict [])]])]\<rparr>"
  have a: "check_conditions_body ?broken ?S = Inl AttributeError"
    by (simp add: pipeline_defs)
  have b: "rules_for ?with ''demo'' = [exposed_warning] @ ?broken # [default_tip]"
    by (simp add: rules_for_def dict_get_def)
  have c: "rules_for ?without ''demo'' = [exposed_warning] @ [default_tip]"
    by (simp add: rules_for_def dict_get_def)
  have d: "get_suggestions_body ?unranked ?S ''demo'' = Inl KeyError"
    by (simp add: pipeline_defs rule_defs)
  have e: "get_suggestions ?without ?S ''demo'' = Inr [default_tip]"
    by (simp add: pipeline_defs rule_defs)
  show ?thesis
    using a b c d e
      faults_never_reach_the_caller [of ?broken ?S ?with "''demo''" AttributeError
        "[exposed_warning]" "[default_tip]" ?without KeyError]
      faults_never_reach_the_caller [of ?broken ?S ?unranked "''demo''" AttributeError
        "[]" "[]" ?unranked KeyError]
    by simp
qed

section \<open>Unknown games\<close>

text \<open>
  Claim C8. For every state, a game that has no entry in the table of the pipeline has
  the empty rule sequence, and \<^verbatim>\<open>get_suggestions\<close> returns the empty list: the body of the
  \<^verbatim>\<open>try\<close> itself returns it, no exception is raised on the way.
\<close>

theorem unknown_game_yields_empty_list:
  assumes "map_of (suggestions self) game = None"
  shows "rules_for self game = [] \<and>
         get_suggestions_body self state game = Inr [] \<and>
         get_suggestions self state game = Inr []"
  using assms
  by (simp add: rules_for_def dict_get_def get_suggestions_def get_suggestions_body_def
      list_sort_def try_except_def)

theorem unknown_game_yields_empty_list_witness:
  "map_of (suggestions init) ''unknown_game'' = None \<and>
   rules_for init ''unknown_game'' = [] \<and>
   get_suggestions_body init [(''exposed'', PBool True)] ''unknown_game'' = Inr [] \<and>
   get_suggestions init [(''exposed'', PBool True)] ''unknown_game'' = Inr []"
proof -
  have h: "map_of (suggestions init) ''unknown_game'' = None"
    by (simp add: table_defs)
  show ?thesis
    using h unknown_game_yields_empty_list [OF h, of "[(''exposed'', PBool True)]"] by simp
qed

section \<open>Fields the conditions do not name\<close>

text \<open>
  Claim C9. Storing a field in the state under a key that the conditions of a rule do not
  name, whether the key is new or already there, does not change whether the rule matches.
\<close>

theorem unreferenced_field_irrelevant:
  assumes "k \<notin> set (condition_keys r)"
  shows "check_conditions r (setitem state k v) = check_conditions r state"
proof (cases r rule: conditions_cases)
  case (1 cs)
  have "conditions_loop cs (setitem state k v) = conditions_loop cs state"
  proof (rule conditions_loop_cong)
    fix k' assume "k' \<in> fst ` set cs"
    then have "k' \<noteq> k" using assms by (auto simp: condition_keys_def 1)
    then show "map_of (setitem state k v) k' = map_of state k'"
      by (simp add: setitem_def update_conv')
  qed
  then show ?thesis by (simp add: check_conditions_dict [OF 1])
next
  case 2
  then show ?thesis by (simp add: check_conditions_not_dict)
qed

text \<open>A new key on a state the rule matches, an overwritten key on a state it does not.\<close>

theorem unreferenced_field_irrelevant_witness:
  "''player_health'' \<notin> set (condition_keys exposed_warning) \<and>
   setitem [(''exposed'', PBool True)] ''player_health'' (PInt 100) =
     [(''exposed'', PBool True), (''player_health'', PInt 100)] \<and>
   check_conditions exposed_warning [(''exposed'', PBool True), (''player_health'', PInt 100)] =
     Inr True \<and>
   check_conditions exposed_warning [(''exposed'', PBool True)] = Inr True \<and>
   ''combat'' \<notin> set (condition_keys exposed_warning) \<and>
   setitem [(''combat'', PBool False), (''exposed'', PBool False)] ''combat'' (PBool True) =
     [(''combat'', PBool True), (''exposed'', PBool False)] \<and>
   check_conditions exposed_warning [(''combat'', PBool True), (''exposed'', PBool False)] =
     Inr False \<and>
   check_conditions exposed_warning [(''combat'', PBool False), (''exposed'', PBool False)] =
     Inr False"
proof -
  have a: "''player_health'' \<notin> set (condition_keys exposed_warning)"
    by (simp add: condition_keys_def dict_get_def rule_defs)
  have b: "''combat'' \<notin> set (condition_keys exposed_warning)"
    by (simp add: condition_keys_def dict_get_def rule_defs)
  have c: "check_conditions exposed_warning [(''exposed'', PBool True)] = Inr True"
    by (simp add: pipeline_defs rule_defs)
  have d: "check_conditions exposed_warning
      [(''combat'', PBool False), (''exposed'', PBool False)] = Inr False"
    by (simp add: pipeline_defs rule_defs)
  show ?thesis
    using a b c d
      unreferenced_field_irrelevant [OF a, of "[(''exposed'', PBool True)]" "PInt 100"]
      unreferenced_field_irrelevant [OF b,
        of "[(''combat'', PBool False), (''exposed'', PBool False)]" "PBool True"]
    by (simp add: setitem_def)
qed

section \<open>The default game\<close>

text \<open>
  Claim C10. A call of \<^verbatim>\<open>get_suggestions\<close> without the argument \<^verbatim>\<open>game\<close> is the call with
  \<^verbatim>\<open>'valorant'\<close>, for every state; on the pipeline the constructor builds it returns the
  first 3 of the matching rules of \<^verbatim>\<open>'valorant'\<close>, sorted by priority.
\<close>

theorem default_game_is_valorant:
  "get_suggestions_call self state None = get_suggestions_call self state (Some ''valorant'') \<and>
   get_suggestions_call self state None = get_suggestions self state ''valorant'' \<and>
   get_suggestions_call init state None =
     Inr (take 3 (sort_key priority (matching init state ''valorant'')))"
  by (simp add: get_suggestions_call_def get_suggestions_int [OF init_int_priorities])

text \<open>A state on which the games differ: the call without a game answers for \<^verbatim>\<open>'valorant'\<close>.\<close>

theorem default_game_is_valorant_witness:
  "get_suggestions_call init [(''team_money'', PStr ''low''), (''round_time'', PStr ''late'')]
     None = Inr [save_money, default_tip] \<and>
   get_suggestions_call init [(''team_money'', PStr ''low''), (''round_time'', PStr ''late'')]
     (Some ''valorant'') = Inr [save_money, default_tip] \<and>
   get_suggestions_call init [(''team_money'', PStr ''low''), (''round_time'', PStr ''late'')]
     (Some ''csgo'') = Inr [csgo_save_money]"
proof -
  let ?S = "[(''team_money'', PStr ''low''), (''round_time'', PStr ''late'')]"
  have a: "get_suggestions init ?S ''valorant'' = Inr [save_money, default_tip]"
    by (simp add: pipeline_defs table_defs rule_defs)
  have b: "get_suggestions_call init ?S (Some ''csgo'') = Inr [csgo_save_money]"
    by (simp add: get_suggestions_call_def pipeline_defs table_defs rule_defs)
  show ?thesis
    using a b default_game_is_valorant [of init ?S]
    by (simp add: get_suggestions_call_def)
qed

end
